theory Spec2Isabelle
  imports Main "HOL-Library.Word" "HOL-Library.Sublist" "HOL-Library.Multiset"
    "HOL-Library.Product_Lexorder"
begin

section \<open>Strings\<close>

text \<open>
  A JavaScript string is a sequence of UTF-16 code units. \<open>js\<close> turns a literal of ASCII
  characters into its code units. The handlers use three string methods: \<open>trim\<close>,
  \<open>includes\<close> and \<open>toLowerCase\<close>.

  \<open>trim\<close> removes white space and line terminators from both ends. These are the code
  units U+0009 to U+000D, U+0020, U+00A0, U+1680, U+2000 to U+200A, U+2028, U+2029,
  U+202F, U+205F, U+3000 and U+FEFF; none of them is part of a surrogate pair.

  \<open>includes\<close> looks for a contiguous run of code units.

  \<open>toLowerCase\<close> follows the case tables of Unicode, which are not part of the sources:
  the definitions that use it take it as an argument, and what is proved of them holds
  for every function in its place.
\<close>

type_synonym jsstring = "16 word list"

definition js :: "string \<Rightarrow> jsstring" where
  "js s = map of_char s"

definition is_space :: "16 word \<Rightarrow> bool" where
  "is_space c =
     ((0x0009 \<le> c \<and> c \<le> 0x000D) \<or> c = 0x0020 \<or> c = 0x00A0 \<or> c = 0x1680
      \<or> (0x2000 \<le> c \<and> c \<le> 0x200A) \<or> c = 0x2028 \<or> c = 0x2029 \<or> c = 0x202F
      \<or> c = 0x205F \<or> c = 0x3000 \<or> c = 0xFEFF)"

definition trim :: "jsstring \<Rightarrow> jsstring" where
  "trim s = rev (dropWhile is_space (rev (dropWhile is_space s)))"

fun includes_str :: "jsstring \<Rightarrow> jsstring \<Rightarrow> bool" where
  "includes_str [] q = (q = [])"
| "includes_str (c # cs) q = (prefix q (c # cs) \<or> includes_str cs q)"

section \<open>Rows and tables\<close>

text \<open>
  The rows of the three tables. Field names carry the table's initial since the tables
  share column names. Timestamps are the milliseconds that \<open>new Date(s).getTime()\<close>
  reads from the stored text.
\<close>

record room =
  r_id :: jsstring
  r_name :: jsstring
  r_owner_email :: jsstring
  r_created_at :: int
  r_password_hash :: jsstring
  r_max_users :: int
  r_owner_id :: jsstring

record room_user =
  ru_room_id :: jsstring
  ru_user_id :: jsstring
  ru_joined_at :: int

datatype message_type = text_message | image_message

record message =
  m_id :: jsstring
  m_created_at :: int
  m_content :: jsstring
  m_user_id :: jsstring
  m_user_email :: jsstring
  m_image_url :: "jsstring option"
  m_message_type :: message_type
  m_room_id :: jsstring

record store =
  rooms :: "room list"
  room_users :: "room_user list"
  messages :: "message list"

record user =
  u_id :: jsstring
  u_email :: jsstring

text \<open>The \<open>updates\<close> object of \<open>handleUpdateSettings\<close>: a partial room.\<close>

record room_patch =
  p_max_users :: int
  p_password_hash :: "jsstring option"

datatype store_error = PGRST116 | unique_violation | foreign_key_violation | check_violation

text \<open>
  Every request that one of the handlers \<open>createRoom\<close>, \<open>joinRoom\<close>,
  \<open>handleUpdateSettings\<close> and \<open>handleDeleteRoom\<close> sends to the store or to the auth
  provider, in order.
\<close>

datatype store_op =
    op_get_user
  | op_insert_room jsstring jsstring int jsstring jsstring
  | op_update_room jsstring room_patch
  | op_select_member jsstring jsstring
  | op_count_members jsstring
  | op_insert_member jsstring jsstring
  | op_delete_messages jsstring
  | op_delete_room_users jsstring
  | op_delete_room jsstring

text \<open>
  What a handler shows and which callbacks it calls, in order. The texts of the toasts
  are the literals of the source.

  The \<open>catch\<close> block of every handler shows the message of what was thrown only if that
  is an \<open>Error\<close> instance. The error that the store returns in its reply is a plain
  object, so a handler that throws it shows nothing; the one \<open>Error\<close> that a handler
  makes itself is \<open>User not found\<close> in \<open>createRoom\<close>.
\<close>

datatype ui_event =
    toast_error string
  | toast_success string
  | onRoomSelect jsstring
  | onClose
  | onRoomDeleted

record effects =
  ui :: "ui_event list"
  db :: store
  ops :: "store_op list"

section \<open>The relational store\<close>

text \<open>
  The store is reliable and sequential: a request fails only where a constraint of the
  schema rejects it. The constraints are those of the migrations: the check on
  \<open>max_users\<close>, the primary key and the foreign key of \<open>room_users\<close>, and the cascade
  from a room to its messages and its members. Row level policies are not modelled.
\<close>

definition max_users_check :: "int \<Rightarrow> bool" where
  "max_users_check n = (n > 0 \<and> n \<le> 100)"

definition insert_room :: "room \<Rightarrow> store \<Rightarrow> store_error + store" where
  "insert_room r s =
     (if \<not> max_users_check (r_max_users r) then Inl check_violation
      else if r_id r \<in> set (map r_id (rooms s)) then Inl unique_violation
      else Inr (s\<lparr>rooms := rooms s @ [r]\<rparr>))"

definition apply_patch :: "room_patch \<Rightarrow> room \<Rightarrow> room" where
  "apply_patch p r =
     (case p_password_hash p of
        None \<Rightarrow> r\<lparr>r_max_users := p_max_users p\<rparr>
      | Some pw \<Rightarrow> r\<lparr>r_max_users := p_max_users p, r_password_hash := pw\<rparr>)"

definition update_room :: "jsstring \<Rightarrow> room_patch \<Rightarrow> store \<Rightarrow> store_error + store" where
  "update_room rid p s =
     (if rid \<in> set (map r_id (rooms s)) \<and> \<not> max_users_check (p_max_users p)
      then Inl check_violation
      else Inr (s\<lparr>rooms := map (\<lambda>r. if r_id r = rid then apply_patch p r else r) (rooms s)\<rparr>))"

definition single :: "'a list \<Rightarrow> store_error + 'a" where
  "single xs = (case xs of [x] \<Rightarrow> Inr x | _ \<Rightarrow> Inl PGRST116)"

definition members_of :: "jsstring \<Rightarrow> store \<Rightarrow> room_user list" where
  "members_of rid s = filter (\<lambda>m. ru_room_id m = rid) (room_users s)"

definition membership :: "jsstring \<Rightarrow> jsstring \<Rightarrow> store \<Rightarrow> room_user list" where
  "membership rid uid s =
     filter (\<lambda>m. ru_room_id m = rid \<and> ru_user_id m = uid) (room_users s)"

definition insert_member :: "jsstring \<Rightarrow> jsstring \<Rightarrow> int \<Rightarrow> store \<Rightarrow> store_error + store" where
  "insert_member rid uid now s =
     (if rid \<notin> set (map r_id (rooms s)) then Inl foreign_key_violation
      else if membership rid uid s \<noteq> [] then Inl unique_violation
      else Inr (s\<lparr>room_users := room_users s @
                  [\<lparr>ru_room_id = rid, ru_user_id = uid, ru_joined_at = now\<rparr>]\<rparr>))"

definition delete_messages :: "jsstring \<Rightarrow> store \<Rightarrow> store" where
  "delete_messages rid s = s\<lparr>messages := filter (\<lambda>m. m_room_id m \<noteq> rid) (messages s)\<rparr>"

definition delete_room_users :: "jsstring \<Rightarrow> store \<Rightarrow> store" where
  "delete_room_users rid s =
     s\<lparr>room_users := filter (\<lambda>m. ru_room_id m \<noteq> rid) (room_users s)\<rparr>"

definition delete_room :: "jsstring \<Rightarrow> store \<Rightarrow> store" where
  "delete_room rid s =
     (if rid \<in> set (map r_id (rooms s))
      then delete_room_users rid (delete_messages rid
             (s\<lparr>rooms := filter (\<lambda>r. r_id r \<noteq> rid) (rooms s)\<rparr>))
      else s)"

text \<open>
  The reply to \<open>select * from rooms order by created_at desc\<close>. The store sorts on
  its own timestamps, which are finer than the milliseconds the client reads, and fixes no
  order among equal ones. A reply is therefore any list \<open>data\<close> of the rows of the table
  whose millisecond times do not increase; the handler takes it as an argument.
\<close>

definition rooms_reply :: "store \<Rightarrow> room list \<Rightarrow> bool" where
  "rooms_reply s data =
     (mset data = mset (rooms s) \<and> sorted_wrt (\<ge>) (map r_created_at data))"

text \<open>
  The reply to \<open>select * from messages where room_id = rid order by created_at\<close>: any
  list of the room's messages whose times do not decrease. The order that the store gives
  to messages of one creation time is its own; \<open>select_messages\<close> is one such reply, and
  what is stated of it is the ascending order and its members only.
\<close>

definition messages_reply :: "jsstring \<Rightarrow> store \<Rightarrow> message list \<Rightarrow> bool" where
  "messages_reply rid s data =
     (mset data = mset (filter (\<lambda>m. m_room_id m = rid) (messages s))
      \<and> sorted (map m_created_at data))"

definition select_messages :: "jsstring \<Rightarrow> store \<Rightarrow> message list" where
  "select_messages rid s = sort_key m_created_at (filter (\<lambda>m. m_room_id m = rid) (messages s))"

section \<open>Access controller: joinRoom\<close>

text \<open>
  \<open>joinRoom\<close> of the room list, for the signed-in user \<open>uid\<close>. The checks come in the
  order of the source: a room is selected, the password is not blank, the password equals
  \<open>password_hash\<close>; then the lookup of the user's membership with \<open>single()\<close>, whose
  error \<open>PGRST116\<close> (not exactly one row) is ignored; then the count of the room's
  members against \<open>max_users\<close>; then the insert. \<open>now\<close> is the store's default for
  \<open>joined_at\<close>. Where the handler throws an error of the store, nothing is shown.
\<close>

definition joinRoom :: "jsstring \<Rightarrow> room option \<Rightarrow> jsstring \<Rightarrow> int \<Rightarrow> store \<Rightarrow> effects" where
  "joinRoom uid selectedRoom joinPassword now s =
     (case selectedRoom of
        None \<Rightarrow> \<lparr>ui = [], db = s, ops = []\<rparr>
      | Some room \<Rightarrow>
          if trim joinPassword = [] then
            \<lparr>ui = [toast_error ''Room password is required''], db = s, ops = []\<rparr>
          else if joinPassword \<noteq> r_password_hash room then
            \<lparr>ui = [toast_error ''Incorrect password''], db = s, ops = []\<rparr>
          else
            (let sel = [op_select_member (r_id room) uid] in
             case single (membership (r_id room) uid s) of
               Inr existingMembership \<Rightarrow> \<lparr>ui = [onRoomSelect (r_id room)], db = s, ops = sel\<rparr>
             | Inl membershipError \<Rightarrow>
                 if membershipError \<noteq> PGRST116 then \<lparr>ui = [], db = s, ops = sel\<rparr>
                 else
                   (let cnt = sel @ [op_count_members (r_id room)];
                        count = int (length (members_of (r_id room) s))
                    in if count \<ge> r_max_users room then
                         \<lparr>ui = [toast_error ''Room is full. Please try another room.''],
                          db = s, ops = cnt\<rparr>
                       else
                         (let ins = cnt @ [op_insert_member (r_id room) uid] in
                          case insert_member (r_id room) uid now s of
                            Inl joinError \<Rightarrow> \<lparr>ui = [], db = s, ops = ins\<rparr>
                          | Inr s' \<Rightarrow>
                              \<lparr>ui = [onRoomSelect (r_id room),
                                     toast_success ''Successfully joined the room!''],
                               db = s', ops = ins\<rparr>))))"

text \<open>
  \<open>joinRoom\<close> is the \<open>onSubmit\<close> of the join form, whose one input, the password, is
  \<open>required\<close>: the browser does not submit the form while the password is the empty
  string. \<open>join\<close> is the handler behind the form.
\<close>

definition join_form_valid :: "jsstring \<Rightarrow> bool" where
  "join_form_valid joinPassword = (joinPassword \<noteq> [])"

definition join :: "jsstring \<Rightarrow> room option \<Rightarrow> jsstring \<Rightarrow> int \<Rightarrow> store \<Rightarrow> effects" where
  "join uid selectedRoom joinPassword now s =
     (if join_form_valid joinPassword then joinRoom uid selectedRoom joinPassword now s
      else \<lparr>ui = [], db = s, ops = []\<rparr>)"

section \<open>Room directory: createRoom, fetchRooms and the search effect\<close>

text \<open>
  \<open>createRoom\<close> checks the password only; \<open>maxUsers\<close> goes to the store as it is. The
  id and the creation time of the new row are the store's column defaults, taken here as
  the arguments \<open>gen_id\<close> and \<open>now\<close>. Where the store rejects the insert, the handler
  throws the store's error and nothing is shown.
\<close>

definition createRoom ::
    "user option \<Rightarrow> jsstring \<Rightarrow> jsstring \<Rightarrow> int \<Rightarrow> jsstring \<Rightarrow> int \<Rightarrow> store \<Rightarrow> effects" where
  "createRoom auth_user newRoomName newRoomPassword maxUsers gen_id now s =
     (if trim newRoomPassword = [] then
        \<lparr>ui = [toast_error ''Room password is required''], db = s, ops = []\<rparr>
      else
        (case auth_user of
           None \<Rightarrow> \<lparr>ui = [toast_error ''User not found''], db = s, ops = [op_get_user]\<rparr>
         | Some user \<Rightarrow>
             (let row = \<lparr>r_id = gen_id, r_name = newRoomName, r_owner_email = u_email user,
                         r_created_at = now, r_password_hash = newRoomPassword,
                         r_max_users = maxUsers, r_owner_id = u_id user\<rparr>;
                  req = [op_get_user,
                         op_insert_room newRoomName newRoomPassword maxUsers
                           (u_id user) (u_email user)]
              in case insert_room row s of
                   Inl error \<Rightarrow> \<lparr>ui = [], db = s, ops = req\<rparr>
                 | Inr s' \<Rightarrow>
                     \<lparr>ui = [onRoomSelect gen_id, toast_success ''Room created successfully!''],
                      db = s', ops = req\<rparr>)))"

text \<open>
  \<open>createRoom\<close> is the \<open>onSubmit\<close> of the create form. Its inputs are the name
  (\<open>required\<close>), the password (\<open>required\<close>) and the maximum of users, a number input with
  \<open>min="1" max="100" required\<close>: the browser does not submit the form while one of them
  is empty or the number is outside 1 to 100. \<open>create\<close> is the handler behind the form.
\<close>

definition create_form_valid :: "jsstring \<Rightarrow> jsstring \<Rightarrow> int \<Rightarrow> bool" where
  "create_form_valid newRoomName newRoomPassword maxUsers =
     (newRoomName \<noteq> [] \<and> newRoomPassword \<noteq> [] \<and> 1 \<le> maxUsers \<and> maxUsers \<le> 100)"

definition create ::
    "user option \<Rightarrow> jsstring \<Rightarrow> jsstring \<Rightarrow> int \<Rightarrow> jsstring \<Rightarrow> int \<Rightarrow> store \<Rightarrow> effects" where
  "create auth_user newRoomName newRoomPassword maxUsers gen_id now s =
     (if create_form_valid newRoomName newRoomPassword maxUsers
      then createRoom auth_user newRoomName newRoomPassword maxUsers gen_id now s
      else \<lparr>ui = [], db = s, ops = []\<rparr>)"

text \<open>
  \<open>Array.prototype.sort\<close> with a comparator is a stable sort: an element moves behind
  another one only when the comparator is positive. Insertion sort is the model.
  \<open>compareRooms\<close> is the arrow function that \<open>fetchRooms\<close> and the search effect pass to
  it. \<open>fetchRooms\<close> maps the reply \<open>data\<close> of the store to the room list;
  \<open>filteredRooms\<close> is the value that the search effect computes from the search text
  and the room list.
\<close>

fun insert_cmp :: "('a \<Rightarrow> 'a \<Rightarrow> int) \<Rightarrow> 'a \<Rightarrow> 'a list \<Rightarrow> 'a list" where
  "insert_cmp cmp x [] = [x]"
| "insert_cmp cmp x (y # ys) = (if cmp x y \<le> 0 then x # y # ys else y # insert_cmp cmp x ys)"

definition js_sort :: "('a \<Rightarrow> 'a \<Rightarrow> int) \<Rightarrow> 'a list \<Rightarrow> 'a list" where
  "js_sort cmp xs = foldr (insert_cmp cmp) xs []"

definition compareRooms :: "jsstring \<Rightarrow> room \<Rightarrow> room \<Rightarrow> int" where
  "compareRooms uid a b =
     (if (r_owner_id a = uid) = (r_owner_id b = uid) then r_created_at b - r_created_at a
      else if r_owner_id a = uid then - 1 else 1)"

definition fetchRooms :: "jsstring \<Rightarrow> room list \<Rightarrow> room list" where
  "fetchRooms uid data = js_sort (compareRooms uid) data"

definition matches :: "(jsstring \<Rightarrow> jsstring) \<Rightarrow> jsstring \<Rightarrow> room \<Rightarrow> bool" where
  "matches toLowerCase query room =
     (includes_str (toLowerCase (r_id room)) query \<or> includes_str (toLowerCase (r_name room)) query)"

definition filteredRooms ::
    "(jsstring \<Rightarrow> jsstring) \<Rightarrow> jsstring \<Rightarrow> jsstring \<Rightarrow> room list \<Rightarrow> room list" where
  "filteredRooms toLowerCase uid searchQuery rs =
     (if trim searchQuery = [] then js_sort (compareRooms uid) rs
      else (let query = toLowerCase searchQuery
            in js_sort (compareRooms uid) (filter (matches toLowerCase query) rs)))"

section \<open>Message stream: the snapshot and the change feed\<close>

text \<open>
  The effect of the chat component: \<open>fetchMessages\<close> replaces the log by the messages
  of the room in ascending order of \<open>created_at\<close>; the callback of the subscription,
  \<open>on_event\<close>, maps the log to \<open>[...current, payload.new]\<close> for an \<open>INSERT\<close> and leaves
  it alone for the other events.
\<close>

datatype event_type = INSERT | UPDATE | DELETE




section \<open>Room lifecycle: handleUpdateSettings and handleDeleteRoom\<close>

text \<open>
  \<open>updates\<close> is the object that \<open>handleUpdateSettings\<close> builds: \<open>max_users\<close> always,
  \<open>password_hash\<close> only when \<open>newPassword\<close> is truthy, that is, not the empty string.
  Where the store rejects the update, the handler throws the store's error and nothing
  is shown.
\<close>

definition updates :: "jsstring \<Rightarrow> int \<Rightarrow> room_patch" where
  "updates newPassword maxUsers =
     (if newPassword \<noteq> [] then \<lparr>p_max_users = maxUsers, p_password_hash = Some newPassword\<rparr>
      else \<lparr>p_max_users = maxUsers, p_password_hash = None\<rparr>)"

definition handleUpdateSettings :: "room \<Rightarrow> jsstring \<Rightarrow> int \<Rightarrow> store \<Rightarrow> effects" where
  "handleUpdateSettings room newPassword maxUsers s =
     (let req = [op_update_room (r_id room) (updates newPassword maxUsers)]
      in case update_room (r_id room) (updates newPassword maxUsers) s of
           Inl error \<Rightarrow> \<lparr>ui = [], db = s, ops = req\<rparr>
         | Inr s' \<Rightarrow>
             \<lparr>ui = [toast_success ''Room settings updated successfully'', onClose],
              db = s', ops = req\<rparr>)"

text \<open>
  The three deletes of \<open>handleDeleteRoom\<close>, none of which reads the result of the one
  before. \<open>delete_steps\<close> lists the store after each request.
\<close>

definition delete_steps :: "room \<Rightarrow> store \<Rightarrow> store list" where
  "delete_steps room s =
     (let s1 = delete_messages (r_id room) s;
          s2 = delete_room_users (r_id room) s1;
          s3 = delete_room (r_id room) s2
      in [s1, s2, s3])"

definition handleDeleteRoom :: "room \<Rightarrow> store \<Rightarrow> effects" where
  "handleDeleteRoom room s =
     \<lparr>ui = [toast_success ''Room deleted successfully'', onRoomDeleted],
      db = last (delete_steps room s),
      ops = [op_delete_messages (r_id room), op_delete_room_users (r_id room),
             op_delete_room (r_id room)]\<rparr>"

text \<open>
  The form that submits to \<open>handleDeleteRoom\<close> has one submit button, disabled while
  \<open>isDeleting || deletePassword !== 'DELETE'\<close>.
\<close>

definition delete_disabled :: "bool \<Rightarrow> jsstring \<Rightarrow> bool" where
  "delete_disabled isDeleting deletePassword = (isDeleting \<or> deletePassword \<noteq> js ''DELETE'')"

definition deleteRoom :: "room \<Rightarrow> bool \<Rightarrow> jsstring \<Rightarrow> store \<Rightarrow> effects" where
  "deleteRoom room isDeleting deletePassword s =
     (if delete_disabled isDeleting deletePassword then \<lparr>ui = [], db = s, ops = []\<rparr>
      else handleDeleteRoom room s)"

text \<open>
  The comparator of the room list orders by this key: other people's rooms after one's
  own, and later creation times first.
\<close>

definition room_key :: "jsstring \<Rightarrow> room \<Rightarrow> bool \<times> int" where
  "room_key uid r = (r_owner_id r \<noteq> uid, - r_created_at r)"

section \<open>Sequences of handler calls\<close>

text \<open>
  The four handlers that write to the store, as actions, and the store after a sequence
  of them. The actions are calls of the handlers themselves, with any arguments, whether
  or not a form would let them through.
\<close>

datatype action =
    act_create "user option" jsstring jsstring int jsstring int
  | act_join jsstring "room option" jsstring int
  | act_update room jsstring int
  | act_delete room

fun step :: "action \<Rightarrow> store \<Rightarrow> store" where
  "step (act_create auth_user newRoomName newRoomPassword maxUsers gen_id now) s =
     db (createRoom auth_user newRoomName newRoomPassword maxUsers gen_id now s)"
| "step (act_join uid selectedRoom joinPassword now) s =
     db (joinRoom uid selectedRoom joinPassword now s)"
| "step (act_update room newPassword maxUsers) s =
     db (handleUpdateSettings room newPassword maxUsers s)"
| "step (act_delete room) s = db (handleDeleteRoom room s)"

definition run :: "action list \<Rightarrow> store \<Rightarrow> store" where
  "run acts s = fold step acts s"

definition empty_store :: store where
  "empty_store = \<lparr>rooms = [], room_users = [], messages = []\<rparr>"

section \<open>Schema invariants and sample data\<close>

text \<open>The primary key of \<open>room_users\<close> and the check on \<open>max_users\<close>, as predicates on a store.\<close>

definition pk_room_users :: "store \<Rightarrow> bool" where
  "pk_room_users s = distinct (map (\<lambda>m. (ru_room_id m, ru_user_id m)) (room_users s))"

definition max_users_ok :: "store \<Rightarrow> bool" where
  "max_users_ok s = list_all (\<lambda>r. max_users_check (r_max_users r)) (rooms s)"

text \<open>
  A small store for the examples: three rooms, two of them owned by \<open>u1\<close>, with
  interleaved creation times. The lobby is full; the attic's password was set to two
  spaces in the settings dialog; the cellar's password is the no-break space U+00A0.
  The cellar is not in the store.
\<close>

definition alice :: user where
  "alice = \<lparr>u_id = js ''u1'', u_email = js ''alice@example.org''\<rparr>"

definition lobby :: room where
  "lobby = \<lparr>r_id = js ''r1'', r_name = js ''Lobby'', r_owner_email = js ''alice@example.org'',
            r_created_at = 100, r_password_hash = js ''p'', r_max_users = 2,
            r_owner_id = js ''u1''\<rparr>"

definition lounge :: room where
  "lounge = \<lparr>r_id = js ''r2'', r_name = js ''Lounge'', r_owner_email = js ''bob@example.org'',
             r_created_at = 200, r_password_hash = js ''q'', r_max_users = 1,
             r_owner_id = js ''u2''\<rparr>"

definition attic :: room where
  "attic = \<lparr>r_id = js ''r3'', r_name = js ''Attic'', r_owner_email = js ''alice@example.org'',
            r_created_at = 300, r_password_hash = js ''  '', r_max_users = 1,
            r_owner_id = js ''u1''\<rparr>"

definition cellar :: room where
  "cellar = \<lparr>r_id = js ''r4'', r_name = js ''Cellar'', r_owner_email = js ''bob@example.org'',
             r_created_at = 400, r_password_hash = [0x00A0], r_max_users = 5,
             r_owner_id = js ''u2''\<rparr>"

definition hello :: message where
  "hello = \<lparr>m_id = js ''m1'', m_created_at = 20, m_content = js ''hello'',
            m_user_id = js ''u2'', m_user_email = js ''bob@example.org'', m_image_url = None,
            m_message_type = text_message, m_room_id = js ''r1''\<rparr>"

definition photo :: message where
  "photo = \<lparr>m_id = js ''m2'', m_created_at = 10, m_content = js ''Sent an image'',
            m_user_id = js ''u3'', m_user_email = js ''carol@example.org'',
            m_image_url = Some (js ''https://img/1.png''),
            m_message_type = image_message, m_room_id = js ''r1''\<rparr>"

definition house :: store where
  "house = \<lparr>rooms = [lobby, lounge, attic],
            room_users =
              [\<lparr>ru_room_id = js ''r1'', ru_user_id = js ''u2'', ru_joined_at = 110\<rparr>,
               \<lparr>ru_room_id = js ''r1'', ru_user_id = js ''u3'', ru_joined_at = 120\<rparr>,
               \<lparr>ru_room_id = js ''r3'', ru_user_id = js ''u2'', ru_joined_at = 310\<rparr>],
            messages = [hello, photo]\<rparr>"

text \<open>
  On strings of ASCII code units \<open>toLowerCase\<close> turns the letters A to Z into a to z
  and leaves the rest. The examples, whose strings are ASCII, use it in this form.
\<close>

definition ascii_toLowerCase :: "jsstring \<Rightarrow> jsstring" where
  "ascii_toLowerCase s = map (\<lambda>c. if 0x41 \<le> c \<and> c \<le> 0x5A then c + 0x20 else c) s"

lemmas fixtures = js_def alice_def lobby_def lounge_def attic_def cellar_def hello_def
  photo_def house_def

section \<open>Facts about the string operations\<close>

lemma trim_empty_iff: "trim s = [] \<longleftrightarrow> list_all is_space s"
proof
  assume "trim s = []"
  then have a: "dropWhile is_space (rev (dropWhile is_space s)) = []"
    by (simp add: trim_def)
  have "dropWhile is_space s = []"
  proof (rule ccontr)
    assume n: "dropWhile is_space s \<noteq> []"
    then have "\<not> is_space (hd (dropWhile is_space s))"
      by (rule hd_dropWhile)
    moreover have "hd (dropWhile is_space s) \<in> set (rev (dropWhile is_space s))"
      using n by simp
    ultimately show False using a by (simp add: dropWhile_eq_Nil_conv)
  qed
  then show "list_all is_space s"
    by (simp add: dropWhile_eq_Nil_conv list_all_iff)
next
  assume "list_all is_space s"
  then have d: "dropWhile is_space s = []"
    by (simp add: dropWhile_eq_Nil_conv list_all_iff)
  show "trim s = []" unfolding trim_def d by simp
qed

lemma trim_nonempty: "trim s \<noteq> [] \<Longrightarrow> s \<noteq> []"
  by (auto simp: trim_def)

lemma includes_str_sublist: "includes_str s q \<longleftrightarrow> sublist q s"
  by (induction s) (auto simp: sublist_Cons_right)

section \<open>Facts about the sort\<close>

lemma mset_insert_cmp: "mset (insert_cmp c x ys) = add_mset x (mset ys)"
  by (induction ys) auto

lemma mset_js_sort: "mset (js_sort c xs) = mset xs"
  by (induction xs) (auto simp: js_sort_def mset_insert_cmp)

lemma set_js_sort: "set (js_sort c xs) = set xs"
  using mset_js_sort [of c xs] by (rule mset_eq_setD)

lemma set_fetchRooms: "set (fetchRooms uid data) = set data"
  by (simp add: fetchRooms_def set_js_sort)

lemma compareRooms_le: "compareRooms uid a b \<le> 0 \<longleftrightarrow> room_key uid a \<le> room_key uid b"
  by (auto simp: compareRooms_def room_key_def less_eq_prod_def)

lemma insert_cmp_insort_key:
  assumes "\<And>a b. c a b \<le> 0 \<longleftrightarrow> f a \<le> f b"
  shows "insert_cmp c x ys = insort_key f x ys"
  by (induction ys) (simp_all add: assms)

lemma js_sort_sort_key:
  assumes "\<And>a b. c a b \<le> 0 \<longleftrightarrow> f a \<le> f b"
  shows "js_sort c xs = sort_key f xs"
  by (induction xs) (simp_all add: js_sort_def insert_cmp_insort_key [OF assms])

lemma js_sort_rooms: "js_sort (compareRooms uid) xs = sort_key (room_key uid) xs"
  by (rule js_sort_sort_key) (rule compareRooms_le)

lemma sorted_key_split:
  "sorted (map (room_key uid) xs) \<Longrightarrow>
     xs = filter (\<lambda>r. r_owner_id r = uid) xs @ filter (\<lambda>r. r_owner_id r \<noteq> uid) xs"
proof (induction xs)
  case Nil
  then show ?case by simp
next
  case (Cons x xs)
  then have ih: "xs = filter (\<lambda>r. r_owner_id r = uid) xs @ filter (\<lambda>r. r_owner_id r \<noteq> uid) xs"
    by simp
  show ?case
  proof (cases "r_owner_id x = uid")
    case True
    with ih show ?thesis by simp
  next
    case False
    have "\<forall>y \<in> set xs. room_key uid x \<le> room_key uid y"
      using Cons.prems by simp
    with False have "\<forall>y \<in> set xs. r_owner_id y \<noteq> uid"
      by (auto simp: room_key_def less_eq_prod_def)
    then have "filter (\<lambda>r. r_owner_id r = uid) xs = []" "filter (\<lambda>r. r_owner_id r \<noteq> uid) xs = xs"
      by (simp_all add: filter_empty_conv filter_id_conv)
    with False show ?thesis by simp
  qed
qed

lemma sorted_key_desc:
  assumes "sorted (map (room_key uid) xs)"
  shows "sorted_wrt (\<ge>) (map r_created_at (filter (\<lambda>r. (r_owner_id r = uid) = b) xs))"
proof -
  have "sorted_wrt (\<lambda>x y. room_key uid x \<le> room_key uid y) (filter (\<lambda>r. (r_owner_id r = uid) = b) xs)"
    using assms by (simp add: sorted_wrt_filter sorted_map)
  then have "sorted_wrt (\<lambda>x y. r_created_at x \<ge> r_created_at y) (filter (\<lambda>r. (r_owner_id r = uid) = b) xs)"
    by (rule sorted_wrt_mono_rel [rotated]) (auto simp: room_key_def less_eq_prod_def)
  then show ?thesis by (simp add: sorted_wrt_map)
qed

lemma filter_sort_key_stable:
  assumes "\<And>x. P x \<Longrightarrow> f x = k"
  shows "filter P (sort_key f xs) = filter P xs"
proof -
  have e: "filter P ys = filter P (filter (\<lambda>y. f y = k) ys)" for ys
    using assms by (auto intro: filter_cong)
  show ?thesis
    by (subst e, subst (2) e) (simp only: sort_key_stable)
qed

lemma sorted_fetchRooms: "sorted (map (room_key uid) (fetchRooms uid data))"
  by (simp add: fetchRooms_def js_sort_rooms)

section \<open>Facts about the store\<close>

lemma select_messages_reply: "messages_reply rid s (select_messages rid s)"
  by (simp add: messages_reply_def select_messages_def)

lemma max_users_ok_createRoom:
  "max_users_ok s \<Longrightarrow> max_users_ok (db (createRoom a n p m g t s))"
  by (auto simp: createRoom_def insert_room_def max_users_ok_def Let_def
      split: option.splits if_splits)

lemma max_users_ok_joinRoom:
  "max_users_ok s \<Longrightarrow> max_users_ok (db (joinRoom u r p t s))"
  by (auto simp: joinRoom_def insert_member_def max_users_ok_def Let_def
      split: option.splits if_splits sum.splits)

lemma p_max_users_updates: "p_max_users (updates p m) = m"
  by (simp add: updates_def)

lemma r_max_users_apply_patch: "r_max_users (apply_patch p r) = p_max_users p"
  by (simp add: apply_patch_def split: option.splits)

lemma max_users_ok_handleUpdateSettings:
  assumes "max_users_ok s"
  shows "max_users_ok (db (handleUpdateSettings r p m s))"
proof (cases "r_id r \<in> set (map r_id (rooms s)) \<and> \<not> max_users_check m")
  case True
  then show ?thesis
    using assms by (simp add: handleUpdateSettings_def update_room_def p_max_users_updates)
next
  case False
  define g where "g = (\<lambda>x. if r_id x = r_id r then apply_patch (updates p m) x else x)"
  have u: "update_room (r_id r) (updates p m) s = Inr (s\<lparr>rooms := map g (rooms s)\<rparr>)"
    using False unfolding g_def by (simp add: update_room_def p_max_users_updates)
  have "max_users_check (r_max_users (g x))" if "x \<in> set (rooms s)" for x
  proof (cases "r_id x = r_id r")
    case True
    have "r_id x \<in> r_id ` set (rooms s)" using that by (rule imageI)
    then have "r_id r \<in> set (map r_id (rooms s))" by (simp only: True set_map)
    with False have "max_users_check m" by simp
    with True show ?thesis
      by (simp add: g_def r_max_users_apply_patch p_max_users_updates)
  next
    case False
    with that assms show ?thesis by (simp add: g_def max_users_ok_def list_all_iff)
  qed
  then have "list_all (\<lambda>x. max_users_check (r_max_users x)) (map g (rooms s))"
    by (simp add: list_all_iff)
  then show ?thesis
    by (simp add: handleUpdateSettings_def u max_users_ok_def)
qed

lemma max_users_ok_handleDeleteRoom:
  "max_users_ok s \<Longrightarrow> max_users_ok (db (handleDeleteRoom r s))"
  by (auto simp: handleDeleteRoom_def delete_steps_def delete_room_def
      delete_room_users_def delete_messages_def max_users_ok_def Let_def list_all_iff)

lemma max_users_ok_step: "max_users_ok s \<Longrightarrow> max_users_ok (step a s)"
  by (cases a)
    (simp_all add: max_users_ok_createRoom max_users_ok_joinRoom
      max_users_ok_handleUpdateSettings max_users_ok_handleDeleteRoom)

lemma max_users_ok_run: "max_users_ok s \<Longrightarrow> max_users_ok (run acts s)"
  unfolding run_def by (induction acts arbitrary: s) (simp_all add: max_users_ok_step)

text \<open>The handlers keep the primary key of \<open>room_users\<close>.\<close>

lemma pk_room_users_createRoom:
  "pk_room_users s \<Longrightarrow> pk_room_users (db (createRoom a n p m g t s))"
  by (auto simp: createRoom_def insert_room_def pk_room_users_def Let_def
      split: option.splits if_splits)

lemma pk_room_users_insert_member:
  assumes "pk_room_users s" and "insert_member rid uid t s = Inr s'"
  shows "pk_room_users s'"
proof -
  have "membership rid uid s = []"
    using assms(2) by (auto simp: insert_member_def split: if_splits)
  then have "(rid, uid) \<notin> set (map (\<lambda>m. (ru_room_id m, ru_user_id m)) (room_users s))"
    by (auto simp: membership_def filter_empty_conv)
  then show ?thesis
    using assms by (auto simp: insert_member_def pk_room_users_def split: if_splits)
qed

lemma pk_room_users_joinRoom:
  "pk_room_users s \<Longrightarrow> pk_room_users (db (joinRoom u r p t s))"
  by (auto simp: joinRoom_def Let_def pk_room_users_insert_member
      split: option.splits if_splits sum.splits)

lemma pk_room_users_handleUpdateSettings:
  "pk_room_users s \<Longrightarrow> pk_room_users (db (handleUpdateSettings r p m s))"
  by (auto simp: handleUpdateSettings_def update_room_def pk_room_users_def Let_def
      split: if_splits)

lemma pk_room_users_handleDeleteRoom:
  "pk_room_users s \<Longrightarrow> pk_room_users (db (handleDeleteRoom r s))"
  by (auto simp: handleDeleteRoom_def delete_steps_def delete_room_def
      delete_room_users_def delete_messages_def pk_room_users_def Let_def distinct_map_filter)

lemma pk_room_users_step: "pk_room_users s \<Longrightarrow> pk_room_users (step a s)"
  by (cases a)
    (simp_all add: pk_room_users_createRoom pk_room_users_joinRoom
      pk_room_users_handleUpdateSettings pk_room_users_handleDeleteRoom)

lemma pk_room_users_run: "pk_room_users s \<Longrightarrow> pk_room_users (run acts s)"
  unfolding run_def by (induction acts arbitrary: s) (simp_all add: pk_room_users_step)

lemma pk_room_users_reachable: "pk_room_users (run acts empty_store)"
  by (rule pk_room_users_run) (simp add: pk_room_users_def empty_store_def)

section \<open>Facts about joinRoom\<close>

lemma filter_key_distinct:
  "distinct (map f xs) \<Longrightarrow> filter (\<lambda>x. f x = k) xs \<noteq> [] \<Longrightarrow> \<exists>x. filter (\<lambda>x. f x = k) xs = [x]"
proof (induction xs)
  case Nil
  then show ?case by simp
next
  case (Cons a xs)
  show ?case
  proof (cases "f a = k")
    case True
    then have "filter (\<lambda>x. f x = k) xs = []"
      using Cons.prems(1) by (auto simp: filter_empty_conv image_iff)
    with True show ?thesis by simp
  next
    case False
    with Cons show ?thesis by simp
  qed
qed

lemma membership_single:
  assumes "pk_room_users s" and "membership rid uid s \<noteq> []"
  shows "\<exists>m. membership rid uid s = [m]"
proof -
  have e: "membership rid uid s =
        filter (\<lambda>m. (ru_room_id m, ru_user_id m) = (rid, uid)) (room_users s)"
    by (simp add: membership_def)
  show ?thesis
    using filter_key_distinct [of "\<lambda>m. (ru_room_id m, ru_user_id m)" "room_users s" "(rid, uid)"]
      assms unfolding e pk_room_users_def by blast
qed

lemma joinRoom_member:
  assumes "trim joinPassword \<noteq> []" and "joinPassword = r_password_hash room"
    and "membership (r_id room) uid s = [m]"
  shows "joinRoom uid (Some room) joinPassword now s =
           \<lparr>ui = [onRoomSelect (r_id room)], db = s, ops = [op_select_member (r_id room) uid]\<rparr>"
  using assms by (simp add: joinRoom_def single_def)

lemma joinRoom_non_member:
  assumes "trim joinPassword \<noteq> []" and "joinPassword = r_password_hash room"
    and "membership (r_id room) uid s = []"
  shows "joinRoom uid (Some room) joinPassword now s =
     (if int (length (members_of (r_id room) s)) \<ge> r_max_users room then
        \<lparr>ui = [toast_error ''Room is full. Please try another room.''], db = s,
         ops = [op_select_member (r_id room) uid, op_count_members (r_id room)]\<rparr>
      else if r_id room \<notin> set (map r_id (rooms s)) then
        \<lparr>ui = [], db = s,
         ops = [op_select_member (r_id room) uid, op_count_members (r_id room),
                op_insert_member (r_id room) uid]\<rparr>
      else
        \<lparr>ui = [onRoomSelect (r_id room), toast_success ''Successfully joined the room!''],
         db = s\<lparr>room_users := room_users s @
                  [\<lparr>ru_room_id = r_id room, ru_user_id = uid, ru_joined_at = now\<rparr>]\<rparr>,
         ops = [op_select_member (r_id room) uid, op_count_members (r_id room),
                op_insert_member (r_id room) uid]\<rparr>)"
  using assms by (simp add: joinRoom_def single_def insert_member_def Let_def)

lemma joinRoom_entered_cases:
  assumes "onRoomSelect (r_id room) \<in> set (ui (joinRoom uid (Some room) joinPassword now s))"
    and "pk_room_users s"
  shows "trim joinPassword \<noteq> [] \<and> joinPassword = r_password_hash room \<and>
         (\<exists>m. membership (r_id room) uid (db (joinRoom uid (Some room) joinPassword now s)) = [m])
         \<and> pk_room_users (db (joinRoom uid (Some room) joinPassword now s))"
proof -
  have p: "trim joinPassword \<noteq> []" "joinPassword = r_password_hash room"
    using assms(1) by (auto simp: joinRoom_def split: if_splits)
  show ?thesis
  proof (cases "membership (r_id room) uid s = []")
    case True
    have n: "(r_id room, uid) \<notin> set (map (\<lambda>m. (ru_room_id m, ru_user_id m)) (room_users s))"
      using True by (auto simp: membership_def filter_empty_conv)
    show ?thesis
      using assms p True n unfolding joinRoom_non_member [OF p True]
      by (auto simp: membership_def pk_room_users_def split: if_splits)
  next
    case False
    then obtain m where m: "membership (r_id room) uid s = [m]"
      using membership_single assms(2) by blast
    have j: "joinRoom uid (Some room) joinPassword now s =
           \<lparr>ui = [onRoomSelect (r_id room)], db = s, ops = [op_select_member (r_id room) uid]\<rparr>"
      by (rule joinRoom_member [OF p m])
    show ?thesis unfolding j using p m assms(2) by simp
  qed
qed

lemmas join_eval = fixtures joinRoom_def trim_def is_space_def single_def membership_def
  members_of_def insert_member_def pk_room_users_def

text \<open>
  C1, as the code has it. A supplied password that is empty, or that differs from the
  room's \<open>password_hash\<close>, makes \<open>joinRoom\<close> stop with one error toast and without any
  request to the store: no membership row is read, counted or written, whatever the
  room's members are. The toast is \<open>Room password is required\<close> when the password is
  empty or only white space, and \<open>Incorrect password\<close> otherwise. Behind the form the
  same holds, except that the empty password does not reach the handler and nothing is
  shown for it.
\<close>

theorem joinRoom_rejected_password:
  assumes "joinPassword = [] \<or> joinPassword \<noteq> r_password_hash room"
  shows "joinRoom uid (Some room) joinPassword now s =
           \<lparr>ui = [toast_error (if trim joinPassword = [] then ''Room password is required''
                               else ''Incorrect password'')],
            db = s, ops = []\<rparr>
       \<and> join uid (Some room) joinPassword now s =
           \<lparr>ui = (if joinPassword = [] then []
                  else [toast_error (if trim joinPassword = [] then ''Room password is required''
                                     else ''Incorrect password'')]),
            db = s, ops = []\<rparr>"
  using assms by (auto simp add: joinRoom_def join_def join_form_valid_def trim_def)

text \<open>
  The witness tries the lobby, whose password is \<open>p\<close>, with \<open>z\<close>, with one space, with
  the no-break space U+00A0 and with the empty string.
\<close>

theorem joinRoom_rejected_password_witness:
  "js ''z'' \<noteq> r_password_hash lobby \<and> js '' '' \<noteq> r_password_hash lobby
   \<and> [0x00A0] \<noteq> r_password_hash lobby
   \<and> join (js ''u4'') (Some lobby) (js ''z'') 500 house =
       \<lparr>ui = [toast_error ''Incorrect password''], db = house, ops = []\<rparr>
   \<and> join (js ''u4'') (Some lobby) (js '' '') 500 house =
       \<lparr>ui = [toast_error ''Room password is required''], db = house, ops = []\<rparr>
   \<and> join (js ''u4'') (Some lobby) [0x00A0] 500 house =
       \<lparr>ui = [toast_error ''Room password is required''], db = house, ops = []\<rparr>
   \<and> join (js ''u4'') (Some lobby) [] 500 house = \<lparr>ui = [], db = house, ops = []\<rparr>"
proof -
  have h: "js ''z'' \<noteq> r_password_hash lobby" "js '' '' \<noteq> r_password_hash lobby"
      "[0x00A0] \<noteq> r_password_hash lobby"
    by (simp_all add: fixtures)
  have t: "trim (js ''z'') \<noteq> []" "trim (js '' '') = []" "trim [0x00A0] = []"
      "js ''z'' \<noteq> []" "js '' '' \<noteq> []" "[0x00A0 :: 16 word] \<noteq> []"
    by (simp_all add: js_def trim_def is_space_def)
  have a: "join (js ''u4'') (Some lobby) (js ''z'') 500 house =
       \<lparr>ui = [toast_error ''Incorrect password''], db = house, ops = []\<rparr>"
    using joinRoom_rejected_password [of "js ''z''" lobby "js ''u4''" 500 house] h(1)
    by (simp only: t if_True if_False simp_thms)
  have b: "join (js ''u4'') (Some lobby) (js '' '') 500 house =
       \<lparr>ui = [toast_error ''Room password is required''], db = house, ops = []\<rparr>"
    using joinRoom_rejected_password [of "js '' ''" lobby "js ''u4''" 500 house] h(2)
    by (simp only: t if_True if_False simp_thms)
  have c: "join (js ''u4'') (Some lobby) [0x00A0] 500 house =
       \<lparr>ui = [toast_error ''Room password is required''], db = house, ops = []\<rparr>"
    using joinRoom_rejected_password [of "[0x00A0]" lobby "js ''u4''" 500 house] h(3)
    by (simp only: t if_True if_False simp_thms)
  have d: "join (js ''u4'') (Some lobby) [] 500 house = \<lparr>ui = [], db = house, ops = []\<rparr>"
    using joinRoom_rejected_password [of "[]" lobby "js ''u4''" 500 house]
    by (simp only: if_True simp_thms)
  show ?thesis
    using h a b c d by (simp only: simp_thms)
qed

text \<open>
  C1 as stated fails on the error it names: a password of one space is not the lobby's
  password, it passes the form, and the toast is not \<open>Incorrect password\<close>.
\<close>

theorem joinRoom_space_password_counterexample:
  "js '' '' \<noteq> r_password_hash lobby \<and> join_form_valid (js '' '')
   \<and> ui (join (js ''u4'') (Some lobby) (js '' '') 500 house) =
       [toast_error ''Room password is required'']
   \<and> ui (join (js ''u4'') (Some lobby) (js '' '') 500 house) \<noteq>
       [toast_error ''Incorrect password'']"
  by (simp add: join_def join_form_valid_def join_eval)

text \<open>
  C2, as the code has it. With the room's password, provided it is not only white space,
  and a store that respects the primary key of \<open>room_users\<close>: a user who has a membership
  row for the room enters at once; the only request is the membership lookup, there is no
  count and no insert, and the store is unchanged, whatever the number of members. After
  a join that entered the room, a second join enters again, changes nothing, and the
  store holds exactly one membership row for the user and the room. (Every store that
  the handlers reach from the empty one respects the primary key.)
\<close>

theorem joinRoom_idempotent:
  assumes "trim joinPassword \<noteq> []" and "joinPassword = r_password_hash room"
    and "pk_room_users s"
  shows "(membership (r_id room) uid s \<noteq> [] \<longrightarrow>
            joinRoom uid (Some room) joinPassword now s =
              \<lparr>ui = [onRoomSelect (r_id room)], db = s,
               ops = [op_select_member (r_id room) uid]\<rparr>)
       \<and> (onRoomSelect (r_id room) \<in> set (ui (joinRoom uid (Some room) joinPassword now s)) \<longrightarrow>
            joinRoom uid (Some room) joinPassword now'
                (db (joinRoom uid (Some room) joinPassword now s)) =
              \<lparr>ui = [onRoomSelect (r_id room)],
               db = db (joinRoom uid (Some room) joinPassword now s),
               ops = [op_select_member (r_id room) uid]\<rparr>
          \<and> length (membership (r_id room) uid
                (db (joinRoom uid (Some room) joinPassword now s))) = 1)"
proof (intro conjI impI)
  assume "membership (r_id room) uid s \<noteq> []"
  then obtain m where "membership (r_id room) uid s = [m]"
    using membership_single assms(3) by blast
  then show "joinRoom uid (Some room) joinPassword now s =
              \<lparr>ui = [onRoomSelect (r_id room)], db = s,
               ops = [op_select_member (r_id room) uid]\<rparr>"
    using assms by (simp add: joinRoom_member)
next
  assume e: "onRoomSelect (r_id room) \<in> set (ui (joinRoom uid (Some room) joinPassword now s))"
  from joinRoom_entered_cases [OF e assms(3)]
  obtain m where
    m: "membership (r_id room) uid (db (joinRoom uid (Some room) joinPassword now s)) = [m]"
    by blast
  show "joinRoom uid (Some room) joinPassword now'
            (db (joinRoom uid (Some room) joinPassword now s)) =
          \<lparr>ui = [onRoomSelect (r_id room)],
           db = db (joinRoom uid (Some room) joinPassword now s),
           ops = [op_select_member (r_id room) uid]\<rparr>"
    by (rule joinRoom_member [OF assms(1,2) m])
  show "length (membership (r_id room) uid
          (db (joinRoom uid (Some room) joinPassword now s))) = 1"
    by (simp add: m)
qed

text \<open>
  The witness: \<open>u2\<close> is a member of the full lobby and enters it again; \<open>u4\<close> joins the
  empty lounge and joins it a second time.
\<close>

theorem joinRoom_idempotent_witness:
  "trim (js ''p'') \<noteq> [] \<and> js ''p'' = r_password_hash lobby \<and> pk_room_users house
   \<and> membership (js ''r1'') (js ''u2'') house \<noteq> []
   \<and> int (length (members_of (js ''r1'') house)) \<ge> r_max_users lobby
   \<and> joinRoom (js ''u2'') (Some lobby) (js ''p'') 500 house =
       \<lparr>ui = [onRoomSelect (js ''r1'')], db = house,
        ops = [op_select_member (js ''r1'') (js ''u2'')]\<rparr>
   \<and> onRoomSelect (js ''r2'') \<in> set (ui (joinRoom (js ''u4'') (Some lounge) (js ''q'') 500 house))
   \<and> length (membership (js ''r2'') (js ''u4'')
        (db (joinRoom (js ''u4'') (Some lounge) (js ''q'') 600
              (db (joinRoom (js ''u4'') (Some lounge) (js ''q'') 500 house))))) = 1"
proof -
  have p: "trim (js ''p'') \<noteq> []" "js ''p'' = r_password_hash lobby"
    and q: "trim (js ''q'') \<noteq> []" "js ''q'' = r_password_hash lounge"
    and k: "pk_room_users house"
    by (simp_all add: join_eval)
  have m: "membership (js ''r1'') (js ''u2'') house \<noteq> []"
    and f: "int (length (members_of (js ''r1'') house)) \<ge> r_max_users lobby"
    and i: "r_id lobby = js ''r1''" "r_id lounge = js ''r2''"
    by (simp_all add: join_eval)
  have e: "onRoomSelect (js ''r2'')
             \<in> set (ui (joinRoom (js ''u4'') (Some lounge) (js ''q'') 500 house))"
    by (simp add: join_eval)
  have a: "joinRoom (js ''u2'') (Some lobby) (js ''p'') 500 house =
       \<lparr>ui = [onRoomSelect (js ''r1'')], db = house,
        ops = [op_select_member (js ''r1'') (js ''u2'')]\<rparr>"
    using joinRoom_idempotent [OF p k, of "js ''u2''" 500 600] m by (simp only: i simp_thms)
  have b: "length (membership (js ''r2'') (js ''u4'')
        (db (joinRoom (js ''u4'') (Some lounge) (js ''q'') 500 house))) = 1"
    using joinRoom_idempotent [OF q k, of "js ''u4''" 500 600] e by (simp only: i simp_thms)
  have c: "db (joinRoom (js ''u4'') (Some lounge) (js ''q'') 600
              (db (joinRoom (js ''u4'') (Some lounge) (js ''q'') 500 house))) =
           db (joinRoom (js ''u4'') (Some lounge) (js ''q'') 500 house)"
    using joinRoom_idempotent [OF q k, of "js ''u4''" 500 600] e
    by (simp only: i simp_thms effects.simps)
  show ?thesis
    using p k m f a e b by (simp only: c simp_thms)
qed

text \<open>
  A password of white space only can be stored: \<open>createRoom\<close> refuses it, the settings
  dialog does not. The attic of the sample store is what these two calls leave.
\<close>

lemma attic_reachable:
  "rooms (run [act_create (Some alice) (js ''Attic'') (js ''x'') 1 (js ''r3'') 300,
               act_update attic (js ''  '') 1] empty_store) = [attic]"
  by (simp add: run_def createRoom_def trim_def is_space_def fixtures
      empty_store_def insert_room_def max_users_check_def handleUpdateSettings_def
      updates_def update_room_def apply_patch_def)

text \<open>
  C2 as stated fails where the room's password is only white space: \<open>u2\<close> is a member
  of the attic and supplies its password, two spaces, and is not let in.
\<close>

theorem joinRoom_member_blank_counterexample:
  "membership (js ''r3'') (js ''u2'') house \<noteq> [] \<and> js ''  '' = r_password_hash attic
   \<and> onRoomSelect (js ''r3'')
       \<notin> set (ui (joinRoom (js ''u2'') (Some attic) (js ''  '') 500 house))"
  by (simp add: join_eval)

text \<open>
  C3, as the code has it. A user without a membership row supplies the password of a
  room, a row of the table \<open>rooms\<close>, and the password is not only white space. When the
  number of membership rows of the room is at least \<open>max_users\<close>, the join stops with
  the toast \<open>Room is full\<close> after the lookup and the count, and the store is unchanged.
  Otherwise exactly one row, for this room and this user, is appended to \<open>room_users\<close>,
  and the join reports success.
\<close>

theorem joinRoom_capacity:
  assumes "trim joinPassword \<noteq> []" and "joinPassword = r_password_hash room"
    and "membership (r_id room) uid s = []"
    and "r_id room \<in> set (map r_id (rooms s))"
  shows "joinRoom uid (Some room) joinPassword now s =
     (if int (length (members_of (r_id room) s)) \<ge> r_max_users room then
        \<lparr>ui = [toast_error ''Room is full. Please try another room.''], db = s,
         ops = [op_select_member (r_id room) uid, op_count_members (r_id room)]\<rparr>
      else
        \<lparr>ui = [onRoomSelect (r_id room), toast_success ''Successfully joined the room!''],
         db = s\<lparr>room_users := room_users s @
                  [\<lparr>ru_room_id = r_id room, ru_user_id = uid, ru_joined_at = now\<rparr>]\<rparr>,
         ops = [op_select_member (r_id room) uid, op_count_members (r_id room),
                op_insert_member (r_id room) uid]\<rparr>)"
  using assms(4) by (simp add: joinRoom_non_member [OF assms(1,2,3)])

theorem joinRoom_capacity_witness:
  "trim (js ''p'') \<noteq> [] \<and> js ''p'' = r_password_hash lobby
   \<and> membership (js ''r1'') (js ''u4'') house = []
   \<and> js ''r1'' \<in> set (map r_id (rooms house))
   \<and> joinRoom (js ''u4'') (Some lobby) (js ''p'') 500 house =
       \<lparr>ui = [toast_error ''Room is full. Please try another room.''], db = house,
        ops = [op_select_member (js ''r1'') (js ''u4''), op_count_members (js ''r1'')]\<rparr>
   \<and> joinRoom (js ''u4'') (Some lounge) (js ''q'') 500 house =
       \<lparr>ui = [onRoomSelect (js ''r2''), toast_success ''Successfully joined the room!''],
        db = house\<lparr>room_users := room_users house @
               [\<lparr>ru_room_id = js ''r2'', ru_user_id = js ''u4'', ru_joined_at = 500\<rparr>]\<rparr>,
        ops = [op_select_member (js ''r2'') (js ''u4''), op_count_members (js ''r2''),
               op_insert_member (js ''r2'') (js ''u4'')]\<rparr>"
proof -
  have p: "trim (js ''p'') \<noteq> []" "js ''p'' = r_password_hash lobby"
      "membership (r_id lobby) (js ''u4'') house = []"
      "r_id lobby \<in> set (map r_id (rooms house))"
    and q: "trim (js ''q'') \<noteq> []" "js ''q'' = r_password_hash lounge"
      "membership (r_id lounge) (js ''u4'') house = []"
      "r_id lounge \<in> set (map r_id (rooms house))"
    by (simp_all add: join_eval)
  have i: "r_id lobby = js ''r1''" "r_id lounge = js ''r2''"
    and f: "int (length (members_of (js ''r1'') house)) \<ge> r_max_users lobby"
    and g: "\<not> int (length (members_of (js ''r2'') house)) \<ge> r_max_users lounge"
    by (simp_all add: join_eval)
  show ?thesis
    using p joinRoom_capacity [OF p, of 500] joinRoom_capacity [OF q, of 500] f g
    by (simp only: i simp_thms if_True if_False)
qed

text \<open>
  C3 as stated fails where the room's password is only white space: the attic is full,
  \<open>u4\<close> is not a member and supplies its password, and the toast is not \<open>Room is full\<close>.
\<close>

theorem joinRoom_full_blank_counterexample:
  "membership (js ''r3'') (js ''u4'') house = [] \<and> js ''  '' = r_password_hash attic
   \<and> int (length (members_of (js ''r3'') house)) \<ge> r_max_users attic
   \<and> ui (joinRoom (js ''u4'') (Some attic) (js ''  '') 500 house) \<noteq>
       [toast_error ''Room is full. Please try another room.'']"
  by (simp add: join_eval)

text \<open>
  C10. A supplied password that is not empty and consists of white space only is
  rejected with \<open>Room password is required\<close>, before the comparison with the room's
  password and without any request to the store, also when the room's password is that
  very string. White space is what \<open>trim\<close> removes: the ASCII blanks as well as the
  no-break space, the line and paragraph separators and the other space characters of
  Unicode.
\<close>

theorem joinRoom_blank_password:
  assumes "joinPassword \<noteq> []" and "list_all is_space joinPassword"
  shows "joinRoom uid (Some room) joinPassword now s =
           \<lparr>ui = [toast_error ''Room password is required''], db = s, ops = []\<rparr>
       \<and> joinRoom uid (Some (room\<lparr>r_password_hash := joinPassword\<rparr>)) joinPassword now s =
           \<lparr>ui = [toast_error ''Room password is required''], db = s, ops = []\<rparr>"
  using assms by (simp add: joinRoom_def trim_empty_iff)

text \<open>
  The witness: \<open>u2\<close>, a member of the attic, supplies its password of two spaces; the
  cellar's password, the no-break space, and a password of the separators U+2028 and
  U+3000 are refused likewise.
\<close>

theorem joinRoom_blank_password_witness:
  "js ''  '' \<noteq> [] \<and> list_all is_space (js ''  '') \<and> r_password_hash attic = js ''  ''
   \<and> joinRoom (js ''u2'') (Some attic) (js ''  '') 500 house =
       \<lparr>ui = [toast_error ''Room password is required''], db = house, ops = []\<rparr>
   \<and> list_all is_space [0x00A0] \<and> r_password_hash cellar = [0x00A0]
   \<and> joinRoom (js ''u2'') (Some cellar) [0x00A0] 500 house =
       \<lparr>ui = [toast_error ''Room password is required''], db = house, ops = []\<rparr>
   \<and> list_all is_space [0x2028, 0x3000]
   \<and> joinRoom (js ''u2'') (Some lobby) [0x2028, 0x3000] 500 house =
       \<lparr>ui = [toast_error ''Room password is required''], db = house, ops = []\<rparr>"
proof -
  have h: "js ''  '' \<noteq> []" "list_all is_space (js ''  '')"
    and g: "[0x00A0 :: 16 word] \<noteq> []" "list_all is_space [0x00A0]"
    and f: "[0x2028, 0x3000 :: 16 word] \<noteq> []" "list_all is_space [0x2028, 0x3000]"
    by (simp_all add: js_def is_space_def)
  have a: "r_password_hash attic = js ''  ''" "r_password_hash cellar = [0x00A0]"
    by (simp_all add: attic_def cellar_def)
  show ?thesis
    using h g f a joinRoom_blank_password [OF h, of "js ''u2''" attic 500 house]
      joinRoom_blank_password [OF g, of "js ''u2''" cellar 500 house]
      joinRoom_blank_password [OF f, of "js ''u2''" lobby 500 house]
    by (simp only: simp_thms)
qed

section \<open>Room creation and the bound on max_users\<close>

text \<open>
  The handler itself does not test \<open>maxUsers\<close>: called past the form with 0 or with 101,
  it sends the insert, the store's check rejects it, and no room is stored.
\<close>

lemma createRoom_unchecked_max_users:
  assumes "trim newRoomPassword \<noteq> []" and "maxUsers = 0 \<or> maxUsers = 101"
  shows "createRoom (Some user) newRoomName newRoomPassword maxUsers gen_id now s =
           \<lparr>ui = [], db = s,
            ops = [op_get_user, op_insert_room newRoomName newRoomPassword maxUsers
                     (u_id user) (u_email user)]\<rparr>"
  using assms by (auto simp: createRoom_def insert_room_def max_users_check_def)

text \<open>
  C5. A create with \<open>maxUsers\<close> 0 or 101 is stopped by the form: the handler does not
  run and no request is sent, to the store or elsewhere. With 1 and with 100, a name, a
  password that is not blank, a signed-in user and a fresh id, the room is stored as
  given. Every room of a store that calls of the handlers reach from the empty store
  satisfies \<open>1 \<le> max_users \<le> 100\<close>.
\<close>

theorem create_max_users:
  "create auth_user newRoomName newRoomPassword 0 gen_id now s = \<lparr>ui = [], db = s, ops = []\<rparr>
   \<and> create auth_user newRoomName newRoomPassword 101 gen_id now s =
       \<lparr>ui = [], db = s, ops = []\<rparr>
   \<and> (newRoomName \<noteq> [] \<and> trim newRoomPassword \<noteq> [] \<and> gen_id \<notin> set (map r_id (rooms s)) \<longrightarrow>
        (\<forall>maxUsers \<in> {1, 100}.
           create (Some user) newRoomName newRoomPassword maxUsers gen_id now s =
             \<lparr>ui = [onRoomSelect gen_id, toast_success ''Room created successfully!''],
              db = s\<lparr>rooms := rooms s @
                     [\<lparr>r_id = gen_id, r_name = newRoomName, r_owner_email = u_email user,
                       r_created_at = now, r_password_hash = newRoomPassword,
                       r_max_users = maxUsers, r_owner_id = u_id user\<rparr>]\<rparr>,
              ops = [op_get_user, op_insert_room newRoomName newRoomPassword maxUsers
                       (u_id user) (u_email user)]\<rparr>))
   \<and> (\<forall>r \<in> set (rooms (run acts empty_store)). 1 \<le> r_max_users r \<and> r_max_users r \<le> 100)"
proof -
  have "max_users_ok (run acts empty_store)"
    by (rule max_users_ok_run) (simp add: max_users_ok_def empty_store_def)
  then have i: "\<forall>r \<in> set (rooms (run acts empty_store)). 1 \<le> r_max_users r \<and> r_max_users r \<le> 100"
    by (auto simp: max_users_ok_def max_users_check_def list_all_iff)
  have b: "create auth_user newRoomName newRoomPassword 0 gen_id now s =
             \<lparr>ui = [], db = s, ops = []\<rparr>"
      "create auth_user newRoomName newRoomPassword 101 gen_id now s =
             \<lparr>ui = [], db = s, ops = []\<rparr>"
    by (simp_all add: create_def create_form_valid_def)
  have c: "\<forall>maxUsers \<in> {1, 100}.
           create (Some user) newRoomName newRoomPassword maxUsers gen_id now s =
             \<lparr>ui = [onRoomSelect gen_id, toast_success ''Room created successfully!''],
              db = s\<lparr>rooms := rooms s @
                     [\<lparr>r_id = gen_id, r_name = newRoomName, r_owner_email = u_email user,
                       r_created_at = now, r_password_hash = newRoomPassword,
                       r_max_users = maxUsers, r_owner_id = u_id user\<rparr>]\<rparr>,
              ops = [op_get_user, op_insert_room newRoomName newRoomPassword maxUsers
                       (u_id user) (u_email user)]\<rparr>"
    if "newRoomName \<noteq> []" "trim newRoomPassword \<noteq> []" "gen_id \<notin> set (map r_id (rooms s))"
    using that trim_nonempty [OF that(2)]
    by (simp add: create_def create_form_valid_def createRoom_def insert_room_def
        max_users_check_def)
  show ?thesis
    using i b c by blast
qed

text \<open>
  The witness submits the form for a room \<open>Den\<close> with each of the four values, and runs
  calls of the handlers from the empty store: a room with 100 users, one with 101 that
  the store rejects, an update to 0 that the store rejects, and an update to 7.
\<close>

theorem create_max_users_witness:
  "js ''Den'' \<noteq> [] \<and> trim (js ''pw'') \<noteq> [] \<and> js ''r9'' \<notin> set (map r_id (rooms house))
   \<and> create (Some alice) (js ''Den'') (js ''pw'') 0 (js ''r9'') 900 house =
       \<lparr>ui = [], db = house, ops = []\<rparr>
   \<and> create (Some alice) (js ''Den'') (js ''pw'') 101 (js ''r9'') 900 house =
       \<lparr>ui = [], db = house, ops = []\<rparr>
   \<and> ui (create (Some alice) (js ''Den'') (js ''pw'') 1 (js ''r9'') 900 house) =
       [onRoomSelect (js ''r9''), toast_success ''Room created successfully!'']
   \<and> map r_max_users (rooms (db (create (Some alice) (js ''Den'') (js ''pw'') 100 (js ''r9'') 900
        house))) = [2, 1, 1, 100]
   \<and> map r_max_users (rooms (run
        [act_create (Some alice) (js ''Den'') (js ''pw'') 100 (js ''r9'') 900,
         act_create (Some alice) (js ''Pit'') (js ''pw'') 101 (js ''r8'') 910,
         act_update (lobby\<lparr>r_id := js ''r9''\<rparr>) [] 0,
         act_update (lobby\<lparr>r_id := js ''r9''\<rparr>) [] 7] empty_store)) = [7]
   \<and> list_all (\<lambda>r. 1 \<le> r_max_users r \<and> r_max_users r \<le> 100) (rooms (run
        [act_create (Some alice) (js ''Den'') (js ''pw'') 100 (js ''r9'') 900,
         act_create (Some alice) (js ''Pit'') (js ''pw'') 101 (js ''r8'') 910,
         act_update (lobby\<lparr>r_id := js ''r9''\<rparr>) [] 0,
         act_update (lobby\<lparr>r_id := js ''r9''\<rparr>) [] 7] empty_store))"
proof -
  have h: "js ''Den'' \<noteq> [] \<and> trim (js ''pw'') \<noteq> [] \<and> js ''r9'' \<notin> set (map r_id (rooms house))"
    by (simp add: trim_def is_space_def fixtures)
  define acts where "acts =
        [act_create (Some alice) (js ''Den'') (js ''pw'') 100 (js ''r9'') 900,
         act_create (Some alice) (js ''Pit'') (js ''pw'') 101 (js ''r8'') 910,
         act_update (lobby\<lparr>r_id := js ''r9''\<rparr>) [] 0,
         act_update (lobby\<lparr>r_id := js ''r9''\<rparr>) [] 7]"
  note t = create_max_users [of "Some alice" "js ''Den''" "js ''pw''" "js ''r9''" 900 house
      alice acts]
  have a: "create (Some alice) (js ''Den'') (js ''pw'') 0 (js ''r9'') 900 house =
       \<lparr>ui = [], db = house, ops = []\<rparr>"
      "create (Some alice) (js ''Den'') (js ''pw'') 101 (js ''r9'') 900 house =
       \<lparr>ui = [], db = house, ops = []\<rparr>"
    using t by simp_all
  have m: "map r_max_users (rooms house) = [2, 1, 1]"
    by (simp add: fixtures)
  have b: "ui (create (Some alice) (js ''Den'') (js ''pw'') 1 (js ''r9'') 900 house) =
       [onRoomSelect (js ''r9''), toast_success ''Room created successfully!'']"
      "map r_max_users (rooms (db (create (Some alice) (js ''Den'') (js ''pw'') 100 (js ''r9'')
         900 house))) = [2, 1, 1, 100]"
    using t h by (simp_all add: m)
  have c: "list_all (\<lambda>r. 1 \<le> r_max_users r \<and> r_max_users r \<le> 100) (rooms (run acts empty_store))"
    using t by (simp add: list_all_iff)
  have d: "map r_max_users (rooms (run acts empty_store)) = [7]"
    by (simp add: acts_def run_def createRoom_def trim_def is_space_def fixtures
        empty_store_def insert_room_def max_users_check_def handleUpdateSettings_def
        updates_def update_room_def apply_patch_def)
  show ?thesis
    using h a b c d unfolding acts_def by (simp only: simp_thms)
qed

section \<open>Settings\<close>

text \<open>
  C9. When the new password is empty, the patch that \<open>handleUpdateSettings\<close> submits
  holds \<open>max_users\<close> only, and the \<open>password_hash\<close> of every room is what it was. For
  every call, the id, the name, the owner's id and email and the creation time of every
  room are what they were.
\<close>

theorem handleUpdateSettings_frame:
  "(newPassword = [] \<longrightarrow>
      updates newPassword maxUsers = \<lparr>p_max_users = maxUsers, p_password_hash = None\<rparr>
      \<and> map r_password_hash (rooms (db (handleUpdateSettings room newPassword maxUsers s))) =
          map r_password_hash (rooms s))
   \<and> map r_id (rooms (db (handleUpdateSettings room newPassword maxUsers s))) = map r_id (rooms s)
   \<and> map r_name (rooms (db (handleUpdateSettings room newPassword maxUsers s))) =
       map r_name (rooms s)
   \<and> map r_owner_id (rooms (db (handleUpdateSettings room newPassword maxUsers s))) =
       map r_owner_id (rooms s)
   \<and> map r_owner_email (rooms (db (handleUpdateSettings room newPassword maxUsers s))) =
       map r_owner_email (rooms s)
   \<and> map r_created_at (rooms (db (handleUpdateSettings room newPassword maxUsers s))) =
       map r_created_at (rooms s)"
  by (auto simp: handleUpdateSettings_def update_room_def apply_patch_def updates_def Let_def
      split: option.splits)

theorem handleUpdateSettings_frame_witness:
  "updates [] 5 = \<lparr>p_max_users = 5, p_password_hash = None\<rparr>
   \<and> map r_password_hash (rooms (db (handleUpdateSettings lobby [] 5 house))) =
       [js ''p'', js ''q'', js ''  '']
   \<and> map r_name (rooms (db (handleUpdateSettings lobby [] 5 house))) =
       [js ''Lobby'', js ''Lounge'', js ''Attic'']
   \<and> map r_max_users (rooms (db (handleUpdateSettings lobby [] 5 house))) = [5, 1, 1]"
proof -
  have a: "map r_password_hash (rooms house) = [js ''p'', js ''q'', js ''  '']"
      "map r_name (rooms house) = [js ''Lobby'', js ''Lounge'', js ''Attic'']"
    by (simp_all add: alice_def lobby_def lounge_def attic_def house_def)
  have b: "map r_max_users (rooms (db (handleUpdateSettings lobby [] 5 house))) = [5, 1, 1]"
    by (simp add: fixtures handleUpdateSettings_def updates_def update_room_def
        apply_patch_def max_users_check_def)
  show ?thesis
    using handleUpdateSettings_frame [of "[]" 5 lobby house] b
    by (simp only: a simp_thms)
qed

section \<open>The message log\<close>




section \<open>Deleting a room\<close>

lemma delete_room_rooms:
  "rooms (delete_room rid s) = filter (\<lambda>r. r_id r \<noteq> rid) (rooms s)"
proof (cases "rid \<in> set (map r_id (rooms s))")
  case True
  then show ?thesis
    by (simp add: delete_room_def delete_room_users_def delete_messages_def)
next
  case False
  then have "filter (\<lambda>r. r_id r \<noteq> rid) (rooms s) = rooms s"
    by (auto simp: filter_id_conv)
  with False show ?thesis by (simp add: delete_room_def)
qed

text \<open>
  C8. \<open>deleteRoom\<close> does something only when the confirmation text is \<open>DELETE\<close> (and no
  deletion is under way). Then it sends three deletes in this order: the messages of the
  room, the membership rows of the room, the room. The first leaves rooms and memberships
  as they were, the second leaves the rooms as they were; after the third the room is not
  in the table, hence not in the list that \<open>fetchRooms\<close> makes of any reply of the
  store, and no message and no membership row carries its id.
\<close>

theorem deleteRoom_order:
  "deleteRoom room isDeleting deletePassword s =
     (if \<not> isDeleting \<and> deletePassword = js ''DELETE'' then
        \<lparr>ui = [toast_success ''Room deleted successfully'', onRoomDeleted],
         db = delete_room (r_id room)
                (delete_room_users (r_id room) (delete_messages (r_id room) s)),
         ops = [op_delete_messages (r_id room), op_delete_room_users (r_id room),
                op_delete_room (r_id room)]\<rparr>
      else \<lparr>ui = [], db = s, ops = []\<rparr>)
   \<and> (let s1 = delete_messages (r_id room) s;
          s2 = delete_room_users (r_id room) s1;
          s3 = delete_room (r_id room) s2
      in delete_steps room s = [s1, s2, s3]
       \<and> r_id room \<notin> set (map m_room_id (messages s1))
       \<and> room_users s1 = room_users s \<and> rooms s1 = rooms s
       \<and> r_id room \<notin> set (map ru_room_id (room_users s2))
       \<and> messages s2 = messages s1 \<and> rooms s2 = rooms s
       \<and> r_id room \<notin> set (map r_id (rooms s3))
       \<and> (rooms_reply s3 data \<longrightarrow> r_id room \<notin> set (map r_id (fetchRooms uid data)))
       \<and> r_id room \<notin> set (map m_room_id (messages s3))
       \<and> r_id room \<notin> set (map ru_room_id (room_users s3)))"
proof -
  have a: "r_id room \<notin> set (map r_id (rooms
             (delete_room (r_id room)
                (delete_room_users (r_id room) (delete_messages (r_id room) s)))))"
    by (auto simp: delete_room_rooms)
  have a': "r_id room \<notin> set (map r_id (fetchRooms uid data))"
    if "rooms_reply (delete_room (r_id room)
          (delete_room_users (r_id room) (delete_messages (r_id room) s))) data"
  proof -
    have "set data = set (rooms (delete_room (r_id room)
          (delete_room_users (r_id room) (delete_messages (r_id room) s))))"
      using that unfolding rooms_reply_def by (blast dest: mset_eq_setD)
    with a show ?thesis by (simp add: set_fetchRooms)
  qed
  have b: "r_id room \<notin> set (map m_room_id (messages (delete_room (r_id room)
                (delete_room_users (r_id room) (delete_messages (r_id room) s)))))"
    by (auto simp: delete_room_def delete_room_users_def delete_messages_def)
  have c: "r_id room \<notin> set (map ru_room_id (room_users (delete_room (r_id room)
                (delete_room_users (r_id room) (delete_messages (r_id room) s)))))"
    by (auto simp: delete_room_def delete_room_users_def delete_messages_def)
  have d: "r_id room \<notin> set (map m_room_id (messages (delete_messages (r_id room) s)))"
      "r_id room \<notin> set (map ru_room_id
          (room_users (delete_room_users (r_id room) (delete_messages (r_id room) s))))"
    by (auto simp: delete_room_users_def delete_messages_def)
  have e: "deleteRoom room isDeleting deletePassword s =
     (if \<not> isDeleting \<and> deletePassword = js ''DELETE'' then
        \<lparr>ui = [toast_success ''Room deleted successfully'', onRoomDeleted],
         db = delete_room (r_id room)
                (delete_room_users (r_id room) (delete_messages (r_id room) s)),
         ops = [op_delete_messages (r_id room), op_delete_room_users (r_id room),
                op_delete_room (r_id room)]\<rparr>
      else \<lparr>ui = [], db = s, ops = []\<rparr>)"
    by (simp add: deleteRoom_def delete_disabled_def handleDeleteRoom_def delete_steps_def
        Let_def)
  have f: "room_users (delete_messages (r_id room) s) = room_users s"
      "rooms (delete_messages (r_id room) s) = rooms s"
      "messages (delete_room_users (r_id room) (delete_messages (r_id room) s)) =
         messages (delete_messages (r_id room) s)"
      "rooms (delete_room_users (r_id room) (delete_messages (r_id room) s)) = rooms s"
    by (simp_all add: delete_room_users_def delete_messages_def)
  show ?thesis
    using a a' b c d e f by (simp add: delete_steps_def Let_def)
qed

text \<open>
  The witness deletes the lobby from the sample store, which holds two messages and two
  members of it, and tries the same with the confirmation text in lower case.
\<close>

theorem deleteRoom_order_witness:
  "db (deleteRoom lobby False (js ''DELETE'') house) =
     \<lparr>rooms = [lounge, attic],
      room_users = [\<lparr>ru_room_id = js ''r3'', ru_user_id = js ''u2'', ru_joined_at = 310\<rparr>],
      messages = []\<rparr>
   \<and> ops (deleteRoom lobby False (js ''DELETE'') house) =
       [op_delete_messages (js ''r1''), op_delete_room_users (js ''r1''),
        op_delete_room (js ''r1'')]
   \<and> rooms_reply (db (deleteRoom lobby False (js ''DELETE'') house)) [attic, lounge]
   \<and> js ''r1'' \<notin> set (map r_id (fetchRooms (js ''u1'') [attic, lounge]))
   \<and> deleteRoom lobby False (js ''delete'') house = \<lparr>ui = [], db = house, ops = []\<rparr>"
proof -
  have i: "r_id lobby = js ''r1''"
    by (simp add: lobby_def)
  have d: "delete_room (js ''r1'') (delete_room_users (js ''r1'')
             (delete_messages (js ''r1'') house)) =
     \<lparr>rooms = [lounge, attic],
      room_users = [\<lparr>ru_room_id = js ''r3'', ru_user_id = js ''u2'', ru_joined_at = 310\<rparr>],
      messages = []\<rparr>"
    by (simp add: fixtures delete_room_def delete_room_users_def delete_messages_def)
  have r: "rooms_reply \<lparr>rooms = [lounge, attic],
      room_users = [\<lparr>ru_room_id = js ''r3'', ru_user_id = js ''u2'', ru_joined_at = 310\<rparr>],
      messages = []\<rparr> [attic, lounge]"
    by (simp add: rooms_reply_def lounge_def attic_def)
  note y = deleteRoom_order [of lobby False "js ''DELETE''" house "[attic, lounge]" "js ''u1''"]
  note n = deleteRoom_order [of lobby False "js ''delete''" house "[attic, lounge]" "js ''u1''"]
  have j: "deleteRoom lobby False (js ''DELETE'') house =
        \<lparr>ui = [toast_success ''Room deleted successfully'', onRoomDeleted],
         db = \<lparr>rooms = [lounge, attic],
                room_users = [\<lparr>ru_room_id = js ''r3'', ru_user_id = js ''u2'',
                               ru_joined_at = 310\<rparr>],
                messages = []\<rparr>,
         ops = [op_delete_messages (js ''r1''), op_delete_room_users (js ''r1''),
                op_delete_room (js ''r1'')]\<rparr>"
    using y by (simp add: i d)
  have k: "deleteRoom lobby False (js ''delete'') house = \<lparr>ui = [], db = house, ops = []\<rparr>"
    using n by (simp add: i js_def)
  have l: "js ''r1'' \<notin> set (map r_id (fetchRooms (js ''u1'') [attic, lounge]))"
    using y r by (simp only: i d Let_def simp_thms)
  show ?thesis
    using k l r by (simp only: j effects.simps simp_thms)
qed

section \<open>The room list\<close>

text \<open>
  C6. For every reply of the store, \<open>fetchRooms\<close> returns every room of the catalog;
  the caller's own rooms come first, the others after them, and each of the two groups is
  in descending order of creation time. Rooms of the same group with the same creation
  time keep the order they have in the reply.
\<close>

theorem fetchRooms_order:
  assumes "rooms_reply s data"
  shows "mset (fetchRooms uid data) = mset (rooms s)
   \<and> fetchRooms uid data = filter (\<lambda>r. r_owner_id r = uid) (fetchRooms uid data)
                        @ filter (\<lambda>r. r_owner_id r \<noteq> uid) (fetchRooms uid data)
   \<and> sorted_wrt (\<ge>) (map r_created_at (filter (\<lambda>r. r_owner_id r = uid) (fetchRooms uid data)))
   \<and> sorted_wrt (\<ge>) (map r_created_at (filter (\<lambda>r. r_owner_id r \<noteq> uid) (fetchRooms uid data)))
   \<and> filter (\<lambda>r. (r_owner_id r = uid) = own \<and> r_created_at r = t) (fetchRooms uid data) =
       filter (\<lambda>r. (r_owner_id r = uid) = own \<and> r_created_at r = t) data"
proof -
  have a: "mset (fetchRooms uid data) = mset (rooms s)"
    using assms by (simp add: fetchRooms_def mset_js_sort rooms_reply_def)
  have b: "fetchRooms uid data = filter (\<lambda>r. r_owner_id r = uid) (fetchRooms uid data)
                        @ filter (\<lambda>r. r_owner_id r \<noteq> uid) (fetchRooms uid data)"
    by (rule sorted_key_split [OF sorted_fetchRooms])
  have c: "sorted_wrt (\<ge>) (map r_created_at (filter (\<lambda>r. r_owner_id r = uid) (fetchRooms uid data)))"
    using sorted_key_desc [OF sorted_fetchRooms, where b = True] by simp
  have d: "sorted_wrt (\<ge>) (map r_created_at (filter (\<lambda>r. r_owner_id r \<noteq> uid) (fetchRooms uid data)))"
    using sorted_key_desc [OF sorted_fetchRooms, where b = False] by simp
  have e: "filter (\<lambda>r. (r_owner_id r = uid) = own \<and> r_created_at r = t) (fetchRooms uid data) =
        filter (\<lambda>r. (r_owner_id r = uid) = own \<and> r_created_at r = t) data"
    unfolding fetchRooms_def js_sort_rooms
    by (rule filter_sort_key_stable [where k = "(\<not> own, - t)"]) (auto simp: room_key_def)
  show ?thesis using a b c d e by simp
qed

text \<open>
  The witness lists the sample store for \<open>u1\<close>, who owns the lobby and the attic. Its
  second part is a table of the lobby and a twin of it with the same creation time, which
  the store returns twin first: the list keeps that order.
\<close>

theorem fetchRooms_order_witness:
  "rooms_reply house [attic, lounge, lobby]
   \<and> fetchRooms (js ''u1'') [attic, lounge, lobby] = [attic, lobby, lounge]
   \<and> mset [attic, lobby, lounge] = mset (rooms house)
   \<and> filter (\<lambda>r. r_owner_id r = js ''u1'') [attic, lobby, lounge] = [attic, lobby]
   \<and> map r_created_at [attic, lobby] = [300, 100]
   \<and> rooms_reply \<lparr>rooms = [lobby, lobby\<lparr>r_id := js ''r5''\<rparr>], room_users = [], messages = []\<rparr>
         [lobby\<lparr>r_id := js ''r5''\<rparr>, lobby]
   \<and> fetchRooms (js ''u1'') [lobby\<lparr>r_id := js ''r5''\<rparr>, lobby] =
         [lobby\<lparr>r_id := js ''r5''\<rparr>, lobby]"
proof -
  have r: "rooms_reply house [attic, lounge, lobby]"
    by (simp add: rooms_reply_def fixtures)
  have a: "fetchRooms (js ''u1'') [attic, lounge, lobby] = [attic, lobby, lounge]"
    by (simp add: fixtures fetchRooms_def js_sort_def compareRooms_def)
  have b: "filter (\<lambda>r. r_owner_id r = js ''u1'') [attic, lobby, lounge] = [attic, lobby]"
      "map r_created_at [attic, lobby] = [300, 100]"
    by (simp_all add: fixtures)
  have m: "mset [attic, lobby, lounge] = mset (rooms house)"
    using fetchRooms_order [OF r, of "js ''u1''" True 300] by (simp only: a)
  have t: "rooms_reply \<lparr>rooms = [lobby, lobby\<lparr>r_id := js ''r5''\<rparr>], room_users = [], messages = []\<rparr>
         [lobby\<lparr>r_id := js ''r5''\<rparr>, lobby]"
    by (simp add: rooms_reply_def lobby_def)
  have f: "filter (\<lambda>r. (r_owner_id r = js ''u1'') = True \<and> r_created_at r = 100)
             [lobby\<lparr>r_id := js ''r5''\<rparr>, lobby] = [lobby\<lparr>r_id := js ''r5''\<rparr>, lobby]"
    by (simp add: lobby_def)
  have g: "fetchRooms (js ''u1'') [lobby\<lparr>r_id := js ''r5''\<rparr>, lobby] =
         filter (\<lambda>r. (r_owner_id r = js ''u1'') = True \<and> r_created_at r = 100)
           (fetchRooms (js ''u1'') [lobby\<lparr>r_id := js ''r5''\<rparr>, lobby])"
    by (simp add: lobby_def fetchRooms_def js_sort_def compareRooms_def)
  have u: "fetchRooms (js ''u1'') [lobby\<lparr>r_id := js ''r5''\<rparr>, lobby] =
         [lobby\<lparr>r_id := js ''r5''\<rparr>, lobby]"
    using fetchRooms_order [OF t, of "js ''u1''" True 100] g f by (simp only:)
  show ?thesis
    using r a b m t u by (simp only: simp_thms)
qed

section \<open>The search box\<close>

lemma matches_sublist:
  "matches toLowerCase (toLowerCase q) r \<longleftrightarrow>
     sublist (toLowerCase q) (toLowerCase (r_id r)) \<or> sublist (toLowerCase q) (toLowerCase (r_name r))"
  by (simp add: matches_def includes_str_sublist)

lemma sorted_js_sort_rooms: "sorted (map (room_key uid) (js_sort (compareRooms uid) xs))"
  by (simp add: js_sort_rooms)

lemma sorted_filteredRooms: "sorted (map (room_key uid) (filteredRooms toLowerCase uid q rs))"
  by (simp add: filteredRooms_def sorted_js_sort_rooms Let_def)

lemma js_sort_rooms_id:
  "sorted (map (room_key uid) xs) \<Longrightarrow> js_sort (compareRooms uid) xs = xs"
  by (simp add: js_sort_rooms sort_key_id_if_sorted)

text \<open>
  C7, as the code has it. With a search text that is empty or only white space the
  filtered list is the room list itself. With any other search text it is the room list
  restricted to the rooms whose id or name, after \<open>toLowerCase\<close>, contains the search
  text after \<open>toLowerCase\<close> (the text as typed, not trimmed), in the order of the room
  list. For every catalog the result holds exactly those rooms, the caller's own rooms
  first, and each of the two groups in descending order of creation time. This holds
  whatever \<open>toLowerCase\<close> does to a string.
\<close>

theorem filteredRooms_spec:
  "(trim searchQuery = [] \<longrightarrow>
      filteredRooms toLowerCase uid searchQuery (fetchRooms uid data) = fetchRooms uid data)
   \<and> (trim searchQuery \<noteq> [] \<longrightarrow>
        filteredRooms toLowerCase uid searchQuery (fetchRooms uid data) =
          filter (\<lambda>r. sublist (toLowerCase searchQuery) (toLowerCase (r_id r))
                    \<or> sublist (toLowerCase searchQuery) (toLowerCase (r_name r)))
            (fetchRooms uid data))
   \<and> set (filteredRooms toLowerCase uid searchQuery rs) =
       (if trim searchQuery = [] then set rs
        else {r \<in> set rs. sublist (toLowerCase searchQuery) (toLowerCase (r_id r))
                         \<or> sublist (toLowerCase searchQuery) (toLowerCase (r_name r))})
   \<and> filteredRooms toLowerCase uid searchQuery rs =
       filter (\<lambda>r. r_owner_id r = uid) (filteredRooms toLowerCase uid searchQuery rs)
       @ filter (\<lambda>r. r_owner_id r \<noteq> uid) (filteredRooms toLowerCase uid searchQuery rs)
   \<and> sorted_wrt (\<ge>) (map r_created_at
        (filter (\<lambda>r. r_owner_id r = uid) (filteredRooms toLowerCase uid searchQuery rs)))
   \<and> sorted_wrt (\<ge>) (map r_created_at
        (filter (\<lambda>r. r_owner_id r \<noteq> uid) (filteredRooms toLowerCase uid searchQuery rs)))"
proof -
  have a: "filteredRooms toLowerCase uid searchQuery (fetchRooms uid data) = fetchRooms uid data"
    if "trim searchQuery = []"
    using that by (simp add: filteredRooms_def js_sort_rooms_id sorted_fetchRooms)
  have "sorted (map (room_key uid)
          (filter (matches toLowerCase (toLowerCase searchQuery)) (fetchRooms uid data)))"
    using sorted_fetchRooms by (rule sorted_filter)
  then have b: "filteredRooms toLowerCase uid searchQuery (fetchRooms uid data) =
          filter (\<lambda>r. sublist (toLowerCase searchQuery) (toLowerCase (r_id r))
                    \<or> sublist (toLowerCase searchQuery) (toLowerCase (r_name r)))
            (fetchRooms uid data)"
    if "trim searchQuery \<noteq> []"
    using that by (simp add: filteredRooms_def js_sort_rooms_id matches_sublist [abs_def])
  have c: "set (filteredRooms toLowerCase uid searchQuery rs) =
       (if trim searchQuery = [] then set rs
        else {r \<in> set rs. sublist (toLowerCase searchQuery) (toLowerCase (r_id r))
                         \<or> sublist (toLowerCase searchQuery) (toLowerCase (r_name r))})"
    by (auto simp: filteredRooms_def set_js_sort matches_sublist)
  have d: "filteredRooms toLowerCase uid searchQuery rs =
       filter (\<lambda>r. r_owner_id r = uid) (filteredRooms toLowerCase uid searchQuery rs)
       @ filter (\<lambda>r. r_owner_id r \<noteq> uid) (filteredRooms toLowerCase uid searchQuery rs)"
    by (rule sorted_key_split [OF sorted_filteredRooms])
  have e: "sorted_wrt (\<ge>) (map r_created_at
        (filter (\<lambda>r. r_owner_id r = uid) (filteredRooms toLowerCase uid searchQuery rs)))"
    using sorted_key_desc [OF sorted_filteredRooms, where b = True] by simp
  have f: "sorted_wrt (\<ge>) (map r_created_at
        (filter (\<lambda>r. r_owner_id r \<noteq> uid) (filteredRooms toLowerCase uid searchQuery rs)))"
    using sorted_key_desc [OF sorted_filteredRooms, where b = False] by simp
  show ?thesis
    using a b c d e f by blast
qed

text \<open>
  The witness searches the sample list with the empty text, with the no-break space
  and with \<open>LO\<close>, which finds the lobby and the lounge.
\<close>

theorem filteredRooms_spec_witness:
  "trim [] = [] \<and> trim [0x00A0] = [] \<and> trim (js ''LO'') \<noteq> []
   \<and> fetchRooms (js ''u1'') [attic, lounge, lobby] = [attic, lobby, lounge]
   \<and> filteredRooms ascii_toLowerCase (js ''u1'') [] [attic, lobby, lounge] =
       [attic, lobby, lounge]
   \<and> filteredRooms ascii_toLowerCase (js ''u1'') [0x00A0] [attic, lobby, lounge] =
       [attic, lobby, lounge]
   \<and> filteredRooms ascii_toLowerCase (js ''u1'') (js ''LO'') [attic, lobby, lounge] =
       [lobby, lounge]"
proof -
  have t: "trim [] = []" "trim [0x00A0] = []" "trim (js ''LO'') \<noteq> []"
    by (simp_all add: trim_def is_space_def js_def)
  have a: "fetchRooms (js ''u1'') [attic, lounge, lobby] = [attic, lobby, lounge]"
    by (simp add: fixtures fetchRooms_def js_sort_def compareRooms_def)
  have m: "filter (\<lambda>r. sublist (ascii_toLowerCase (js ''LO'')) (ascii_toLowerCase (r_id r))
                    \<or> sublist (ascii_toLowerCase (js ''LO'')) (ascii_toLowerCase (r_name r)))
            [attic, lobby, lounge] = [lobby, lounge]"
    by (simp add: includes_str_sublist [symmetric] fixtures ascii_toLowerCase_def)
  show ?thesis
    using t a
      filteredRooms_spec [of "[]" ascii_toLowerCase "js ''u1''" "[attic, lounge, lobby]" "[]"]
      filteredRooms_spec [of "[0x00A0]" ascii_toLowerCase "js ''u1''" "[attic, lounge, lobby]" "[]"]
      filteredRooms_spec [of "js ''LO''" ascii_toLowerCase "js ''u1''" "[attic, lounge, lobby]" "[]"]
    by (simp only: a m simp_thms)
qed

text \<open>
  C7 as stated fails for a search text that is not empty but only white space: a single
  space occurs neither in the id nor in the name of the lobby, and the lobby is in the
  result.
\<close>

theorem filteredRooms_blank_query_counterexample:
  "js '' '' \<noteq> []
   \<and> \<not> includes_str (ascii_toLowerCase (r_id lobby)) (ascii_toLowerCase (js '' ''))
   \<and> \<not> includes_str (ascii_toLowerCase (r_name lobby)) (ascii_toLowerCase (js '' ''))
   \<and> lobby \<in> set (filteredRooms ascii_toLowerCase (js ''u1'') (js '' '')
                    (fetchRooms (js ''u1'') [attic, lounge, lobby]))"
proof -
  have a: "fetchRooms (js ''u1'') [attic, lounge, lobby] = [attic, lobby, lounge]"
    by (simp add: fixtures fetchRooms_def js_sort_def compareRooms_def)
  have b: "filteredRooms ascii_toLowerCase (js ''u1'') (js '' '') [attic, lobby, lounge] =
       [attic, lobby, lounge]"
    by (simp add: fixtures filteredRooms_def trim_def is_space_def js_sort_def compareRooms_def)
  have c: "\<not> includes_str (ascii_toLowerCase (r_id lobby)) (ascii_toLowerCase (js '' ''))"
      "\<not> includes_str (ascii_toLowerCase (r_name lobby)) (ascii_toLowerCase (js '' ''))"
      "js '' '' \<noteq> []"
    by (simp_all add: lobby_def ascii_toLowerCase_def js_def)
  show ?thesis
    using c by (simp add: a b)
qed

end
